theory Spec2Isabelle
  imports Main
begin

section \<open>Go run-time failures\<close>

text \<open>
  The program is Go. An index expression \<open>xs[i]\<close> and a slice expression \<open>xs[lo:hi]\<close>
  are bounds-checked at run time; a failed check is a run-time panic, which no function of
  \<open>whale.go\<close> recovers. A panic is not an \<open>error\<close> value: the function does not return.
  It is the \<open>Inl\<close> side of every result below.
\<close>

datatype panic =
    IndexOutOfRange int int \<comment> \<open>index out of range [i] with length n\<close>
  | SliceBoundsOutOfRange int int \<comment> \<open>slice bounds out of range [:hi] with capacity n\<close>

definition index :: "'a list \<Rightarrow> int \<Rightarrow> panic + 'a" where
  "index xs i =
     (if 0 \<le> i \<and> i < int (length xs) then Inr (xs ! nat i)
      else Inl (IndexOutOfRange i (int (length xs))))"

text \<open>
  \<open>xs[lo:hi]\<close> with constant bounds \<open>lo \<le> hi\<close>. The upper bound is checked against the
  capacity; the slices cut here come from \<open>strings.Fields\<close>, which allocates exactly as
  many elements as there are fields, so capacity and length agree.
\<close>

definition slice :: "'a list \<Rightarrow> nat \<Rightarrow> nat \<Rightarrow> panic + 'a list" where
  "slice xs lo hi =
     (if length xs < hi then Inl (SliceBoundsOutOfRange (int hi) (int (length xs)))
      else Inr (take (hi - lo) (drop lo xs)))"

section \<open>The record parser\<close>

subsection \<open>strings.Fields and strings.Join\<close>

text \<open>
  A Go string is a sequence of bytes, here a \<open>string\<close>. \<open>strings.Fields\<close> splits it
  around each run of white space as \<open>unicode.IsSpace\<close> defines it: the six ASCII
  characters tab, line feed, vertical tab, form feed, carriage return and space, and the
  code points U+0085, U+00A0, U+1680, U+2000 to U+200A, U+2028, U+2029, U+202F, U+205F and
  U+3000, read in their UTF-8 encoding. \<open>spaceWidth s\<close> is the number of bytes of the
  white-space character that \<open>s\<close> starts with, and 0 when it starts with none.
\<close>

definition asciiSpace :: "char \<Rightarrow> bool" where
  "asciiSpace c \<longleftrightarrow>
     c \<in> set [CHR 0x09, CHR 0x0A, CHR 0x0B, CHR 0x0C, CHR 0x0D, CHR 0x20]"

fun spaceWidth :: "string \<Rightarrow> nat" where
  "spaceWidth [] = 0"
| "spaceWidth (c # cs) =
     (if asciiSpace c then 1
      else if c = CHR 0xC2 then
        (case cs of
           d # _ \<Rightarrow> if d = CHR 0x85 \<or> d = CHR 0xA0 then 2 else 0
         | [] \<Rightarrow> 0)
      else if c = CHR 0xE1 then
        (if take 2 cs = [CHR 0x9A, CHR 0x80] then 3 else 0)
      else if c = CHR 0xE2 then
        (case cs of
           d # e # _ \<Rightarrow>
             if d = CHR 0x80 \<and>
                e \<in> set [CHR 0x80, CHR 0x81, CHR 0x82, CHR 0x83, CHR 0x84, CHR 0x85,
                          CHR 0x86, CHR 0x87, CHR 0x88, CHR 0x89, CHR 0x8A,
                          CHR 0xA8, CHR 0xA9, CHR 0xAF]
             then 3
             else if d = CHR 0x81 \<and> e = CHR 0x9F then 3 else 0
         | _ \<Rightarrow> 0)
      else if c = CHR 0xE3 then
        (if take 2 cs = [CHR 0x80, CHR 0x80] then 3 else 0)
      else 0)"

definition emit :: "string \<Rightarrow> string list" where
  "emit cur = (if cur = [] then [] else [cur])"

function FieldsFrom :: "string \<Rightarrow> string \<Rightarrow> string list" where
  "FieldsFrom cur [] = emit cur"
| "FieldsFrom cur (c # cs) =
     (if spaceWidth (c # cs) = 0 then FieldsFrom (cur @ [c]) cs
      else emit cur @ FieldsFrom [] (drop (spaceWidth (c # cs) - 1) cs))"
  by pat_completeness auto
termination
  by (relation "measure (\<lambda>(cur, s). length s)") auto

definition Fields :: "string \<Rightarrow> string list" where
  "Fields s = FieldsFrom [] s"

fun Join :: "string list \<Rightarrow> string \<Rightarrow> string" where
  "Join [] sep = []"
| "Join [x] sep = x"
| "Join (x # y # ys) sep = x @ sep @ Join (y # ys) sep"

subsection \<open>convertStringToContainer\<close>

record Container =
  ID :: string
  Image_field :: string
  Command :: string
  Created :: string
  Status :: string
  Ports :: string
  Name :: string

definition convertStringToContainer :: "string \<Rightarrow> panic + Container" where
  "convertStringToContainer str =
     (let fields = Fields str in
      (case index fields 0 of Inl p \<Rightarrow> Inl p | Inr cid \<Rightarrow>
      (case index fields 1 of Inl p \<Rightarrow> Inl p | Inr img \<Rightarrow>
      (case index fields 2 of Inl p \<Rightarrow> Inl p | Inr command \<Rightarrow>
      (case slice fields 3 6 of Inl p \<Rightarrow> Inl p | Inr createdFields \<Rightarrow>
      (let created = Join createdFields '' '' in
      (case (if 10 < length fields
             then (case slice fields 6 10 of
                     Inl p \<Rightarrow> Inl p
                   | Inr statusFields \<Rightarrow> Inr (Join statusFields '' ''))
             else Inr '''') of Inl p \<Rightarrow> Inl p | Inr status \<Rightarrow>
      (let ports = '''' in
      (case index fields (int (length fields) - 1) of Inl p \<Rightarrow> Inl p | Inr name \<Rightarrow>
         Inr \<lparr>ID = cid, Image_field = img, Command = command, Created = created,
              Status = status, Ports = ports, Name = name\<rparr>)))))))))"

section \<open>The selection menus\<close>

subsection \<open>Machine integers\<close>

text \<open>
  \<open>cursor\<close> is a Go \<open>int\<close>, 64 bits wide on the platforms the program runs on
  (it calls \<open>pbcopy\<close>). \<open>cursor--\<close> and \<open>cursor++\<close> wrap around silently.
\<close>

definition wrap64 :: "int \<Rightarrow> int" where
  "wrap64 i = (i + 2 ^ 63) mod 2 ^ 64 - 2 ^ 63"

subsection \<open>Messages and commands of the terminal library\<close>

text \<open>
  \<open>Update\<close> receives a \<open>tea.Msg\<close>: a key press, of which it reads only the name
  \<open>msg.String()\<close>, or a message of another type (a window size, for instance), which
  the type switch lets through. It answers with the command \<open>tea.Quit\<close> or with \<open>nil\<close>.
\<close>

datatype msg = KeyMsg string | OtherMsg

datatype cmd = Quit | NoCmd

subsection \<open>containerChoice\<close>

record containerChoice =
  containers :: "string list"
  cursor :: int
  selectedContainer :: string

definition initialContainerModel :: "string list \<Rightarrow> containerChoice" where
  "initialContainerModel cs =
     \<lparr>containers = cs, cursor = int (length cs) - 1, selectedContainer = ''''\<rparr>"

definition containerChoice_Update ::
  "containerChoice \<Rightarrow> msg \<Rightarrow> panic + containerChoice \<times> cmd" where
  "containerChoice_Update menu m =
     (case m of
        KeyMsg k \<Rightarrow>
          if k = ''q'' \<or> k = ''esc'' \<or> k = ''ctrl+c'' then Inr (menu, Quit)
          else if k = ''up'' then
            (let c = wrap64 (cursor menu - 1) in
             Inr (menu\<lparr>cursor := (if c < 0 then int (length (containers menu)) - 1 else c)\<rparr>,
                  NoCmd))
          else if k = ''down'' then
            (let c = wrap64 (cursor menu + 1) in
             Inr (menu\<lparr>cursor := (if int (length (containers menu)) \<le> c then 0 else c)\<rparr>,
                  NoCmd))
          else if k = ''enter'' then
            (case index (containers menu) (cursor menu) of
               Inl p \<Rightarrow> Inl p
             | Inr x \<Rightarrow> Inr (menu\<lparr>selectedContainer := x\<rparr>, Quit))
          else Inr (menu, NoCmd)
      | OtherMsg \<Rightarrow> Inr (menu, NoCmd))"

subsection \<open>actionChoice\<close>

text \<open>
  The second menu has the same shape. Its fields \<open>cursor\<close> and \<open>selectedContainer\<close>
  carry the prefix \<open>action_\<close> here, the names being taken by the first record.
\<close>

record actionChoice =
  actions :: "string list"
  action_cursor :: int
  selectedAction :: string
  action_selectedContainer :: Container

definition initialActionModel :: "Container \<Rightarrow> actionChoice" where
  "initialActionModel container =
     (let acts = [''Exit'', ''Copy container ID''] in
      \<lparr>actions = acts, action_cursor = int (length acts) - 1, selectedAction = '''',
       action_selectedContainer = container\<rparr>)"

definition actionChoice_Update ::
  "actionChoice \<Rightarrow> msg \<Rightarrow> panic + actionChoice \<times> cmd" where
  "actionChoice_Update menu m =
     (case m of
        KeyMsg k \<Rightarrow>
          if k = ''q'' \<or> k = ''esc'' \<or> k = ''ctrl+c'' then Inr (menu, Quit)
          else if k = ''up'' then
            (let c = wrap64 (action_cursor menu - 1) in
             Inr (menu\<lparr>action_cursor :=
                         (if c < 0 then int (length (actions menu)) - 1 else c)\<rparr>,
                  NoCmd))
          else if k = ''down'' then
            (let c = wrap64 (action_cursor menu + 1) in
             Inr (menu\<lparr>action_cursor :=
                         (if int (length (actions menu)) \<le> c then 0 else c)\<rparr>,
                  NoCmd))
          else if k = ''enter'' then
            (case index (actions menu) (action_cursor menu) of
               Inl p \<Rightarrow> Inl p
             | Inr x \<Rightarrow> Inr (menu\<lparr>selectedAction := x\<rparr>, Quit))
          else Inr (menu, NoCmd)
      | OtherMsg \<Rightarrow> Inr (menu, NoCmd))"

subsection \<open>Running a menu\<close>

text \<open>
  \<open>tea.NewProgram(model).Run()\<close> belongs to the terminal library, not to this program.
  What the program relies on is its event loop: starting from the given model, each
  message is handed to \<open>Update\<close>, one at a time and in order; the loop ends with the model
  at hand once \<open>Update\<close> has answered \<open>tea.Quit\<close>, or with an error when reading the
  terminal fails. As long as neither has happened the loop waits for the next event.
  When \<open>Update\<close> panics the loop has no model to go on with; that is \<open>Crashed\<close>.
  The library recovers such a panic, and \<open>Run\<close> returns the error \<open>ErrProgramPanic\<close>
  wrapped in \<open>ErrProgramKilled\<close>.
\<close>

type_synonym error = string

datatype event = Deliver msg | ReadFailure error

datatype 'm session =
    Awaiting 'm \<comment> \<open>every event so far consumed, the loop waits with this model\<close>
  | Crashed panic
  | Ended 'm "error option"

fun runProgram ::
  "('m \<Rightarrow> msg \<Rightarrow> panic + 'm \<times> cmd) \<Rightarrow> 'm \<Rightarrow> event list \<Rightarrow> 'm session" where
  "runProgram upd model [] = Awaiting model"
| "runProgram upd model (ReadFailure e # evs) = Ended model (Some e)"
| "runProgram upd model (Deliver m # evs) =
     (case upd model m of
        Inl p \<Rightarrow> Crashed p
      | Inr (model', Quit) \<Rightarrow> Ended model' None
      | Inr (model', NoCmd) \<Rightarrow> runProgram upd model' evs)"

definition ErrProgramPanic :: error where
  "ErrProgramPanic = ''program was killed: program experienced a panic''"

text \<open>What a call does: it returns, ends the process, or is still waiting.\<close>

datatype 'a call = Returns 'a | Exits int | Waits

definition chooseContainer :: "string list \<Rightarrow> event list \<Rightarrow> (string \<times> error option) call" where
  "chooseContainer cs evs =
     (case runProgram containerChoice_Update (initialContainerModel cs) evs of
        Awaiting _ \<Rightarrow> Waits
      | Crashed p \<Rightarrow> Returns ('''', Some ErrProgramPanic)
      | Ended finalModel (Some err) \<Rightarrow> Returns ('''', Some err)
      | Ended finalModel None \<Rightarrow> Returns (selectedContainer finalModel, None))"

definition chooseAction :: "Container \<Rightarrow> event list \<Rightarrow> (string \<times> error option) call" where
  "chooseAction container evs =
     (case runProgram actionChoice_Update (initialActionModel container) evs of
        Awaiting _ \<Rightarrow> Waits
      | Crashed p \<Rightarrow> Returns ('''', Some ErrProgramPanic)
      | Ended finalModel (Some err) \<Rightarrow> Returns ('''', Some err)
      | Ended finalModel None \<Rightarrow> Returns (selectedAction finalModel, None))"

section \<open>Carrying out the action\<close>

text \<open>
  \<open>copyContainerId\<close> runs the command \<open>pbcopy\<close> once, with the identifier on its
  standard input. The command is outside the program: \<open>pbcopy text\<close> is the error
  \<open>cmd.Run()\<close> returns, \<open>None\<close> for \<open>nil\<close>. What the program does to the outside is
  kept as a list, in order: each run of the command with the text it was given, and each
  line printed. The built-in \<open>println\<close> applied to an \<open>error\<close> writes the two machine
  words of the interface value, not the message; the source does not determine them,
  so that line carries no text here.
\<close>

datatype effect =
    RunPbcopy string \<comment> \<open>one run of pbcopy with this standard input\<close>
  | Println string \<comment> \<open>println of a string\<close>
  | PrintlnErrorWords \<comment> \<open>println of an error value\<close>

definition copyContainerId ::
  "(string \<Rightarrow> error option) \<Rightarrow> string \<Rightarrow> effect list \<times> error option" where
  "copyContainerId pbcopy container =
     (case pbcopy container of
        Some err \<Rightarrow> ([RunPbcopy container], Some (''error copying container ID: '' @ err))
      | None \<Rightarrow>
          ([RunPbcopy container, Println ''Container ID copied to clipboard''], None))"

definition doAction ::
  "(string \<Rightarrow> error option) \<Rightarrow> string \<Rightarrow> Container \<Rightarrow> effect list \<times> error option call" where
  "doAction pbcopy action container =
     (if action = ''Exit'' then ([], Exits 0)
      else if action = ''Copy container ID'' then
        (let containerID = ID container in
         case copyContainerId pbcopy containerID of
           (effects, Some err) \<Rightarrow> (effects @ [PrintlnErrorWords], Exits 1)
         | (effects, None) \<Rightarrow> (effects, Returns None))
      else ([], Returns None))"

subsection \<open>Phases of a session\<close>

text \<open>
  The keys that make \<open>Update\<close> answer \<open>tea.Quit\<close> without selecting, and the events
  that leave a session running: every message other than these keys and \<open>enter\<close>.
\<close>

definition cancelKey :: "string \<Rightarrow> bool" where
  "cancelKey k \<longleftrightarrow> k = ''q'' \<or> k = ''esc'' \<or> k = ''ctrl+c''"

fun browsing :: "event \<Rightarrow> bool" where
  "browsing (Deliver (KeyMsg k)) = (\<not> cancelKey k \<and> k \<noteq> ''enter'')"
| "browsing (Deliver OtherMsg) = True"
| "browsing (ReadFailure e) = False"

subsection \<open>A sample record\<close>

text \<open>The record of a container named \<open>web\<close>, for the concrete instances below.\<close>

definition webContainer :: Container where
  "webContainer =
     \<lparr>ID = ''abc123'', Image_field = ''nginx:latest'', Command = ''nginx'',
      Created = ''2 days ago'', Status = ''Up 2 days 80/tcp'', Ports = '''', Name = ''web''\<rparr>"

section \<open>Properties of the record parser\<close>

lemma index_last:
  assumes "xs \<noteq> []"
  shows "index xs (int (length xs) - 1) = Inr (last xs)"
proof -
  have "nat (int (length xs) - 1) = length xs - 1" by simp
  then show ?thesis
    using assms by (simp add: index_def last_conv_nth)
qed

lemma take_Suc_drop:
  "k < length xs \<Longrightarrow> take (Suc n) (drop k xs) = xs ! k # take n (drop (Suc k) xs)"
  by (simp add: Cons_nth_drop_Suc [symmetric])

lemma take3_drop3:
  assumes "6 \<le> length xs"
  shows "take 3 (drop 3 xs) = [xs ! 3, xs ! 4, xs ! 5]"
proof -
  have "take 3 (drop 3 xs) = take (Suc (Suc (Suc 0))) (drop 3 xs)"
    by (simp add: numeral_3_eq_3)
  also have "\<dots> = [xs ! 3, xs ! Suc 3, xs ! Suc (Suc 3)]"
    using assms by (simp add: take_Suc_drop)
  finally show ?thesis by simp
qed

lemma take4_drop6:
  assumes "10 \<le> length xs"
  shows "take 4 (drop 6 xs) = [xs ! 6, xs ! 7, xs ! 8, xs ! 9]"
proof -
  have "take 4 (drop 6 xs) = take (Suc (Suc (Suc (Suc 0)))) (drop 6 xs)"
    by (simp add: eval_nat_numeral)
  also have "\<dots> = [xs ! 6, xs ! Suc 6, xs ! Suc (Suc 6), xs ! Suc (Suc (Suc 6))]"
    using assms by (simp add: take_Suc_drop)
  finally show ?thesis by simp
qed

lemmas Fields_eval = Fields_def emit_def asciiSpace_def

text \<open>
  C1, as the specification states it: a line with fewer than three tokens makes the
  parser fail with a \<open>MalformedRecord\<close> error. \<open>convertStringToContainer\<close> has no error
  result and checks nothing: on the two-token line below \<open>fields[2]\<close> is out of range
  and the call panics instead of returning.
\<close>

theorem C1_counterexample:
  "convertStringToContainer ''abc123 nginx:latest'' = Inl (IndexOutOfRange 2 2)"
  by (simp add: convertStringToContainer_def Fields_eval index_def)

text \<open>
  C1, amended: for every line with fewer than three white-space separated tokens the
  parser does not return. It stops with the run-time panic "index out of range" at the
  first of \<open>fields[0]\<close>, \<open>fields[1]\<close>, \<open>fields[2]\<close> that does not exist, so no
  \<open>Container\<close>, partial or whole, is produced.
\<close>

theorem C1_short_line_panics:
  assumes "length (Fields str) < 3"
  shows "convertStringToContainer str =
         Inl (IndexOutOfRange (int (length (Fields str))) (int (length (Fields str))))"
proof -
  consider "length (Fields str) = 0" | "length (Fields str) = 1" | "length (Fields str) = 2"
    using assms by linarith
  then show ?thesis
  proof cases
    case 1
    then show ?thesis
      by (simp add: convertStringToContainer_def Let_def index_def)
  next
    case 2
    then have "index (Fields str) 0 = Inr (Fields str ! 0)"
      and "index (Fields str) 1 = Inl (IndexOutOfRange 1 1)"
      by (simp_all add: index_def)
    then show ?thesis
      using 2 by (simp add: convertStringToContainer_def Let_def)
  next
    case 3
    then have "index (Fields str) 0 = Inr (Fields str ! 0)"
      and "index (Fields str) 1 = Inr (Fields str ! 1)"
      and "index (Fields str) 2 = Inl (IndexOutOfRange 2 2)"
      by (simp_all add: index_def)
    then show ?thesis
      using 3 by (simp add: convertStringToContainer_def Let_def)
  qed
qed

theorem C1_short_line_panics_witness:
  "length (Fields ''abc123 '') < 3 \<and>
   convertStringToContainer ''abc123 '' = Inl (IndexOutOfRange 1 1)"
proof -
  have h: "length (Fields ''abc123 '') < 3"
    by (simp add: Fields_eval)
  show ?thesis
    using h C1_short_line_panics [OF h] by (simp add: Fields_eval)
qed

text \<open>
  C3, as the specification states it: every line is parsed by position. A line of
  four tokens has a third token, yet \<open>fields[3:6]\<close> needs six: the call panics and
  assigns nothing.
\<close>

theorem C3_counterexample:
  "convertStringToContainer ''abc123 nginx:latest nginx web'' =
   Inl (SliceBoundsOutOfRange 6 4)"
  by (simp add: convertStringToContainer_def Fields_eval index_def slice_def)

text \<open>
  C3, amended: for every line with at least six tokens the parser returns the record
  whose identifier is token 0, image token 1, command token 2, creation text tokens 3, 4
  and 5 joined by single spaces, status text tokens 6, 7, 8 and 9 joined by single spaces
  when there are more than ten tokens and empty otherwise, port text empty, and name the
  last token.
\<close>

theorem C3_positional_fields:
  assumes "6 \<le> length (Fields str)"
  shows "convertStringToContainer str =
     Inr \<lparr>ID = Fields str ! 0, Image_field = Fields str ! 1, Command = Fields str ! 2,
          Created = Fields str ! 3 @ '' '' @ Fields str ! 4 @ '' '' @ Fields str ! 5,
          Status = (if 10 < length (Fields str)
                    then Fields str ! 6 @ '' '' @ Fields str ! 7 @ '' '' @
                         Fields str ! 8 @ '' '' @ Fields str ! 9
                    else ''''),
          Ports = '''', Name = last (Fields str)\<rparr>"
proof -
  have ne: "Fields str \<noteq> []"
    using assms by (cases "Fields str") simp_all
  have i: "index (Fields str) 0 = Inr (Fields str ! 0)"
    "index (Fields str) 1 = Inr (Fields str ! 1)"
    "index (Fields str) 2 = Inr (Fields str ! 2)"
    using assms ne by (simp_all add: index_def)
  have c: "slice (Fields str) 3 6 = Inr [Fields str ! 3, Fields str ! 4, Fields str ! 5]"
    using assms by (simp add: slice_def take3_drop3)
  have s: "10 < length (Fields str) \<Longrightarrow>
      slice (Fields str) 6 10 =
      Inr [Fields str ! 6, Fields str ! 7, Fields str ! 8, Fields str ! 9]"
    by (simp add: slice_def take4_drop6)
  show ?thesis
    by (simp add: convertStringToContainer_def Let_def i c s index_last [OF ne])
qed

theorem C3_positional_fields_witness:
  "6 \<le> length (Fields ''abc123 nginx:latest nginx 2 days ago Up 2 days 80/tcp web'') \<and>
   convertStringToContainer ''abc123 nginx:latest nginx 2 days ago Up 2 days 80/tcp web'' =
     Inr \<lparr>ID = ''abc123'', Image_field = ''nginx:latest'', Command = ''nginx'',
          Created = ''2 days ago'', Status = ''Up 2 days 80/tcp'', Ports = '''',
          Name = ''web''\<rparr>"
proof -
  have h: "6 \<le> length (Fields ''abc123 nginx:latest nginx 2 days ago Up 2 days 80/tcp web'')"
    by (simp add: Fields_eval)
  show ?thesis
    using h C3_positional_fields [OF h] by (simp add: Fields_eval)
qed

section \<open>Properties of the selection menus\<close>

subsection \<open>The event loop\<close>

lemma wrap64_id: "- (2 ^ 63) \<le> i \<Longrightarrow> i < 2 ^ 63 \<Longrightarrow> wrap64 i = i"
  by (simp add: wrap64_def)

lemma runProgram_append:
  "runProgram upd m pre = Awaiting m' \<Longrightarrow>
   runProgram upd m (pre @ evs) = runProgram upd m' evs"
proof (induction pre arbitrary: m)
  case Nil
  then show ?case by simp
next
  case (Cons ev pre)
  show ?case
  proof (cases ev)
    case (ReadFailure e)
    then show ?thesis using Cons.prems by simp
  next
    case (Deliver e)
    then show ?thesis
      using Cons.prems Cons.IH
      by (auto split: sum.splits cmd.splits prod.splits)
  qed
qed

subsection \<open>Steps of the container menu\<close>

lemma container_quit:
  "cancelKey k \<Longrightarrow> containerChoice_Update m (KeyMsg k) = Inr (m, Quit)"
  by (auto simp add: containerChoice_Update_def cancelKey_def)

lemma container_other_key:
  assumes "\<not> cancelKey k" "k \<noteq> ''up''" "k \<noteq> ''down''" "k \<noteq> ''enter''"
  shows "containerChoice_Update m (KeyMsg k) = Inr (m, NoCmd)"
  using assms by (simp add: containerChoice_Update_def cancelKey_def)

lemma container_other_msg: "containerChoice_Update m OtherMsg = Inr (m, NoCmd)"
  by (simp add: containerChoice_Update_def)

lemma container_enter:
  "containerChoice_Update m (KeyMsg ''enter'') =
     (case index (containers m) (cursor m) of
        Inl p \<Rightarrow> Inl p
      | Inr x \<Rightarrow> Inr (m\<lparr>selectedContainer := x\<rparr>, Quit))"
  by (simp add: containerChoice_Update_def)

lemma container_up_any:
  "containerChoice_Update m (KeyMsg ''up'') =
     Inr (m\<lparr>cursor := (if wrap64 (cursor m - 1) < 0 then int (length (containers m)) - 1
                        else wrap64 (cursor m - 1))\<rparr>, NoCmd)"
  by (simp add: containerChoice_Update_def Let_def)

lemma container_down_any:
  "containerChoice_Update m (KeyMsg ''down'') =
     Inr (m\<lparr>cursor := (if int (length (containers m)) \<le> wrap64 (cursor m + 1) then 0
                        else wrap64 (cursor m + 1))\<rparr>, NoCmd)"
  by (simp add: containerChoice_Update_def Let_def)

lemma container_up:
  assumes "0 \<le> cursor m" "cursor m < int (length (containers m))"
    "int (length (containers m)) < 2 ^ 63"
  shows "containerChoice_Update m (KeyMsg ''up'') =
         Inr (m\<lparr>cursor := (cursor m - 1) mod int (length (containers m))\<rparr>, NoCmd)"
proof -
  have w: "wrap64 (cursor m - 1) = cursor m - 1"
    using assms by (intro wrap64_id) simp_all
  show ?thesis
  proof (cases "cursor m = 0")
    case True
    then show ?thesis
      using assms w by (simp add: container_up_any zmod_minus1)
  next
    case False
    then have "(cursor m - 1) mod int (length (containers m)) = cursor m - 1"
      using assms by simp
    then show ?thesis
      using assms w False by (simp add: container_up_any)
  qed
qed

lemma container_down:
  assumes "0 \<le> cursor m" "cursor m < int (length (containers m))"
    "int (length (containers m)) < 2 ^ 63"
  shows "containerChoice_Update m (KeyMsg ''down'') =
         Inr (m\<lparr>cursor := (cursor m + 1) mod int (length (containers m))\<rparr>, NoCmd)"
proof -
  have w: "wrap64 (cursor m + 1) = cursor m + 1"
    using assms by (intro wrap64_id) simp_all
  show ?thesis
  proof (cases "cursor m + 1 = int (length (containers m))")
    case True
    then show ?thesis
      using w by (simp add: container_down_any)
  next
    case False
    then have "(cursor m + 1) mod int (length (containers m)) = cursor m + 1"
      using assms by simp
    then show ?thesis
      using assms w False by (simp add: container_down_any)
  qed
qed

lemma container_step:
  assumes "0 \<le> cursor m" "cursor m < int (length (containers m))"
    "int (length (containers m)) < 2 ^ 63"
  shows "\<exists>m' c. containerChoice_Update m e = Inr (m', c) \<and>
           containers m' = containers m \<and>
           0 \<le> cursor m' \<and> cursor m' < int (length (containers m'))"
proof (cases e)
  case OtherMsg
  then show ?thesis
    using assms by (simp add: container_other_msg)
next
  case (KeyMsg k)
  have pos: "0 < int (length (containers m))"
    using assms by linarith
  consider "cancelKey k" | "k = ''up''" | "k = ''down''" | "k = ''enter''"
    | "\<not> cancelKey k" "k \<noteq> ''up''" "k \<noteq> ''down''" "k \<noteq> ''enter''"
    by blast
  then show ?thesis
  proof cases
    case 1
    then show ?thesis
      using assms KeyMsg by (simp add: container_quit)
  next
    case 2
    then show ?thesis
      using assms pos KeyMsg by (simp add: container_up)
  next
    case 3
    then show ?thesis
      using assms pos KeyMsg by (simp add: container_down)
  next
    case 4
    then show ?thesis
      using assms KeyMsg by (simp add: container_enter index_def)
  next
    case 5
    then show ?thesis
      using assms KeyMsg by (simp add: container_other_key)
  qed
qed

lemma container_run_range:
  assumes "0 \<le> cursor m" "cursor m < int (length (containers m))"
    "int (length (containers m)) < 2 ^ 63"
    "runProgram containerChoice_Update m pre = Awaiting m'"
  shows "containers m' = containers m \<and>
         0 \<le> cursor m' \<and> cursor m' < int (length (containers m'))"
  using assms
proof (induction pre arbitrary: m)
  case Nil
  then show ?case by simp
next
  case (Cons ev pre)
  show ?case
  proof (cases ev)
    case (ReadFailure e)
    then show ?thesis
      using Cons.prems by simp
  next
    case (Deliver e)
    obtain m1 c where step: "containerChoice_Update m e = Inr (m1, c)"
      and keep: "containers m1 = containers m"
      and range: "0 \<le> cursor m1" "cursor m1 < int (length (containers m1))"
      using container_step [OF Cons.prems(1-3)] by blast
    show ?thesis
    proof (cases c)
      case Quit
      then show ?thesis
        using Cons.prems(4) Deliver step by simp
    next
      case NoCmd
      then have "runProgram containerChoice_Update m1 pre = Awaiting m'"
        using Cons.prems(4) Deliver step by simp
      moreover have "int (length (containers m1)) < 2 ^ 63"
        using keep Cons.prems(3) by simp
      ultimately have "containers m' = containers m1 \<and>
          0 \<le> cursor m' \<and> cursor m' < int (length (containers m'))"
        using range by (intro Cons.IH)
      then show ?thesis
        using keep by auto
    qed
  qed
qed

lemma container_browse_step:
  assumes "browsing (Deliver e)"
  shows "\<exists>m'. containerChoice_Update m e = Inr (m', NoCmd) \<and>
           selectedContainer m' = selectedContainer m \<and> containers m' = containers m"
proof (cases e)
  case OtherMsg
  then show ?thesis by (simp add: container_other_msg)
next
  case (KeyMsg k)
  then have k: "\<not> cancelKey k" "k \<noteq> ''enter''"
    using assms by simp_all
  consider "k = ''up''" | "k = ''down''" | "k \<noteq> ''up''" "k \<noteq> ''down''"
    by blast
  then show ?thesis
  proof cases
    case 1
    then show ?thesis using KeyMsg by (simp add: container_up_any)
  next
    case 2
    then show ?thesis using KeyMsg by (simp add: container_down_any)
  next
    case 3
    then show ?thesis using KeyMsg k by (simp add: container_other_key)
  qed
qed

lemma container_run_browsing:
  assumes "list_all browsing pre"
  shows "\<exists>m'. runProgram containerChoice_Update m pre = Awaiting m' \<and>
           selectedContainer m' = selectedContainer m \<and> containers m' = containers m"
  using assms
proof (induction pre arbitrary: m)
  case Nil
  then show ?case by simp
next
  case (Cons ev pre)
  then obtain e where ev: "ev = Deliver e"
    by (cases ev) simp_all
  obtain m1 where step: "containerChoice_Update m e = Inr (m1, NoCmd)"
    and keep: "selectedContainer m1 = selectedContainer m" "containers m1 = containers m"
    using container_browse_step [of e m] Cons.prems ev by auto
  obtain m' where "runProgram containerChoice_Update m1 pre = Awaiting m'"
    and "selectedContainer m' = selectedContainer m1" "containers m' = containers m1"
    using Cons.IH [of m1] Cons.prems by auto
  then show ?case
    using ev step keep by simp
qed

lemma container_downs:
  assumes "0 \<le> cursor m" "cursor m < int (length (containers m))"
    "int (length (containers m)) < 2 ^ 63"
  shows "runProgram containerChoice_Update m (replicate n (Deliver (KeyMsg ''down''))) =
         Awaiting (m\<lparr>cursor := (cursor m + int n) mod int (length (containers m))\<rparr>)"
  using assms
proof (induction n arbitrary: m)
  case 0
  then show ?case by simp
next
  case (Suc n)
  let ?m' = "m\<lparr>cursor := (cursor m + 1) mod int (length (containers m))\<rparr>"
  have step: "containerChoice_Update m (KeyMsg ''down'') = Inr (?m', NoCmd)"
    using Suc.prems by (rule container_down)
  have pos: "0 < int (length (containers m))"
    using Suc.prems by linarith
  have "0 \<le> cursor ?m'" "cursor ?m' < int (length (containers ?m'))"
    "int (length (containers ?m')) < 2 ^ 63"
    using Suc.prems pos by simp_all
  then have "runProgram containerChoice_Update ?m' (replicate n (Deliver (KeyMsg ''down''))) =
        Awaiting (?m'\<lparr>cursor := (cursor ?m' + int n) mod int (length (containers ?m'))\<rparr>)"
    by (rule Suc.IH)
  moreover have "((cursor m + 1) mod int (length (containers m)) + int n)
                   mod int (length (containers m)) =
                 (cursor m + int (Suc n)) mod int (length (containers m))"
    by (simp add: mod_simps algebra_simps)
  ultimately show ?case
    using step by simp
qed

lemma container_ups:
  assumes "0 \<le> cursor m" "cursor m < int (length (containers m))"
    "int (length (containers m)) < 2 ^ 63"
  shows "runProgram containerChoice_Update m (replicate n (Deliver (KeyMsg ''up''))) =
         Awaiting (m\<lparr>cursor := (cursor m - int n) mod int (length (containers m))\<rparr>)"
  using assms
proof (induction n arbitrary: m)
  case 0
  then show ?case by simp
next
  case (Suc n)
  let ?m' = "m\<lparr>cursor := (cursor m - 1) mod int (length (containers m))\<rparr>"
  have step: "containerChoice_Update m (KeyMsg ''up'') = Inr (?m', NoCmd)"
    using Suc.prems by (rule container_up)
  have pos: "0 < int (length (containers m))"
    using Suc.prems by linarith
  have "0 \<le> cursor ?m'" "cursor ?m' < int (length (containers ?m'))"
    "int (length (containers ?m')) < 2 ^ 63"
    using Suc.prems pos by simp_all
  then have "runProgram containerChoice_Update ?m' (replicate n (Deliver (KeyMsg ''up''))) =
        Awaiting (?m'\<lparr>cursor := (cursor ?m' - int n) mod int (length (containers ?m'))\<rparr>)"
    by (rule Suc.IH)
  moreover have "((cursor m - 1) mod int (length (containers m)) - int n)
                   mod int (length (containers m)) =
                 (cursor m - int (Suc n)) mod int (length (containers m))"
    by (simp add: mod_simps algebra_simps)
  ultimately show ?case
    using step by simp
qed

subsection \<open>Steps of the action menu\<close>

lemma action_quit:
  "cancelKey k \<Longrightarrow> actionChoice_Update m (KeyMsg k) = Inr (m, Quit)"
  by (auto simp add: actionChoice_Update_def cancelKey_def)

lemma action_other_key:
  assumes "\<not> cancelKey k" "k \<noteq> ''up''" "k \<noteq> ''down''" "k \<noteq> ''enter''"
  shows "actionChoice_Update m (KeyMsg k) = Inr (m, NoCmd)"
  using assms by (simp add: actionChoice_Update_def cancelKey_def)

lemma action_other_msg: "actionChoice_Update m OtherMsg = Inr (m, NoCmd)"
  by (simp add: actionChoice_Update_def)

lemma action_enter:
  "actionChoice_Update m (KeyMsg ''enter'') =
     (case index (actions m) (action_cursor m) of
        Inl p \<Rightarrow> Inl p
      | Inr x \<Rightarrow> Inr (m\<lparr>selectedAction := x\<rparr>, Quit))"
  by (simp add: actionChoice_Update_def)

lemma action_up_any:
  "actionChoice_Update m (KeyMsg ''up'') =
     Inr (m\<lparr>action_cursor := (if wrap64 (action_cursor m - 1) < 0 then int (length (actions m)) - 1
                        else wrap64 (action_cursor m - 1))\<rparr>, NoCmd)"
  by (simp add: actionChoice_Update_def Let_def)

lemma action_down_any:
  "actionChoice_Update m (KeyMsg ''down'') =
     Inr (m\<lparr>action_cursor := (if int (length (actions m)) \<le> wrap64 (action_cursor m + 1) then 0
                        else wrap64 (action_cursor m + 1))\<rparr>, NoCmd)"
  by (simp add: actionChoice_Update_def Let_def)

lemma action_up:
  assumes "0 \<le> action_cursor m" "action_cursor m < int (length (actions m))"
    "int (length (actions m)) < 2 ^ 63"
  shows "actionChoice_Update m (KeyMsg ''up'') =
         Inr (m\<lparr>action_cursor := (action_cursor m - 1) mod int (length (actions m))\<rparr>, NoCmd)"
proof -
  have w: "wrap64 (action_cursor m - 1) = action_cursor m - 1"
    using assms by (intro wrap64_id) simp_all
  show ?thesis
  proof (cases "action_cursor m = 0")
    case True
    then show ?thesis
      using assms w by (simp add: action_up_any zmod_minus1)
  next
    case False
    then have "(action_cursor m - 1) mod int (length (actions m)) = action_cursor m - 1"
      using assms by simp
    then show ?thesis
      using assms w False by (simp add: action_up_any)
  qed
qed

lemma action_down:
  assumes "0 \<le> action_cursor m" "action_cursor m < int (length (actions m))"
    "int (length (actions m)) < 2 ^ 63"
  shows "actionChoice_Update m (KeyMsg ''down'') =
         Inr (m\<lparr>action_cursor := (action_cursor m + 1) mod int (length (actions m))\<rparr>, NoCmd)"
proof -
  have w: "wrap64 (action_cursor m + 1) = action_cursor m + 1"
    using assms by (intro wrap64_id) simp_all
  show ?thesis
  proof (cases "action_cursor m + 1 = int (length (actions m))")
    case True
    then show ?thesis
      using w by (simp add: action_down_any)
  next
    case False
    then have "(action_cursor m + 1) mod int (length (actions m)) = action_cursor m + 1"
      using assms by simp
    then show ?thesis
      using assms w False by (simp add: action_down_any)
  qed
qed

lemma action_step:
  assumes "0 \<le> action_cursor m" "action_cursor m < int (length (actions m))"
    "int (length (actions m)) < 2 ^ 63"
  shows "\<exists>m' c. actionChoice_Update m e = Inr (m', c) \<and>
           actions m' = actions m \<and>
           0 \<le> action_cursor m' \<and> action_cursor m' < int (length (actions m'))"
proof (cases e)
  case OtherMsg
  then show ?thesis
    using assms by (simp add: action_other_msg)
next
  case (KeyMsg k)
  have pos: "0 < int (length (actions m))"
    using assms by linarith
  consider "cancelKey k" | "k = ''up''" | "k = ''down''" | "k = ''enter''"
    | "\<not> cancelKey k" "k \<noteq> ''up''" "k \<noteq> ''down''" "k \<noteq> ''enter''"
    by blast
  then show ?thesis
  proof cases
    case 1
    then show ?thesis
      using assms KeyMsg by (simp add: action_quit)
  next
    case 2
    then show ?thesis
      using assms pos KeyMsg by (simp add: action_up)
  next
    case 3
    then show ?thesis
      using assms pos KeyMsg by (simp add: action_down)
  next
    case 4
    then show ?thesis
      using assms KeyMsg by (simp add: action_enter index_def)
  next
    case 5
    then show ?thesis
      using assms KeyMsg by (simp add: action_other_key)
  qed
qed

lemma action_run_range:
  assumes "0 \<le> action_cursor m" "action_cursor m < int (length (actions m))"
    "int (length (actions m)) < 2 ^ 63"
    "runProgram actionChoice_Update m pre = Awaiting m'"
  shows "actions m' = actions m \<and>
         0 \<le> action_cursor m' \<and> action_cursor m' < int (length (actions m'))"
  using assms
proof (induction pre arbitrary: m)
  case Nil
  then show ?case by simp
next
  case (Cons ev pre)
  show ?case
  proof (cases ev)
    case (ReadFailure e)
    then show ?thesis
      using Cons.prems by simp
  next
    case (Deliver e)
    obtain m1 c where step: "actionChoice_Update m e = Inr (m1, c)"
      and keep: "actions m1 = actions m"
      and range: "0 \<le> action_cursor m1" "action_cursor m1 < int (length (actions m1))"
      using action_step [OF Cons.prems(1-3)] by blast
    show ?thesis
    proof (cases c)
      case Quit
      then show ?thesis
        using Cons.prems(4) Deliver step by simp
    next
      case NoCmd
      then have "runProgram actionChoice_Update m1 pre = Awaiting m'"
        using Cons.prems(4) Deliver step by simp
      moreover have "int (length (actions m1)) < 2 ^ 63"
        using keep Cons.prems(3) by simp
      ultimately have "actions m' = actions m1 \<and>
          0 \<le> action_cursor m' \<and> action_cursor m' < int (length (actions m'))"
        using range by (intro Cons.IH)
      then show ?thesis
        using keep by auto
    qed
  qed
qed

lemma action_browse_step:
  assumes "browsing (Deliver e)"
  shows "\<exists>m'. actionChoice_Update m e = Inr (m', NoCmd) \<and>
           selectedAction m' = selectedAction m \<and> actions m' = actions m"
proof (cases e)
  case OtherMsg
  then show ?thesis by (simp add: action_other_msg)
next
  case (KeyMsg k)
  then have k: "\<not> cancelKey k" "k \<noteq> ''enter''"
    using assms by simp_all
  consider "k = ''up''" | "k = ''down''" | "k \<noteq> ''up''" "k \<noteq> ''down''"
    by blast
  then show ?thesis
  proof cases
    case 1
    then show ?thesis using KeyMsg by (simp add: action_up_any)
  next
    case 2
    then show ?thesis using KeyMsg by (simp add: action_down_any)
  next
    case 3
    then show ?thesis using KeyMsg k by (simp add: action_other_key)
  qed
qed

lemma action_run_browsing:
  assumes "list_all browsing pre"
  shows "\<exists>m'. runProgram actionChoice_Update m pre = Awaiting m' \<and>
           selectedAction m' = selectedAction m \<and> actions m' = actions m"
  using assms
proof (induction pre arbitrary: m)
  case Nil
  then show ?case by simp
next
  case (Cons ev pre)
  then obtain e where ev: "ev = Deliver e"
    by (cases ev) simp_all
  obtain m1 where step: "actionChoice_Update m e = Inr (m1, NoCmd)"
    and keep: "selectedAction m1 = selectedAction m" "actions m1 = actions m"
    using action_browse_step [of e m] Cons.prems ev by auto
  obtain m' where "runProgram actionChoice_Update m1 pre = Awaiting m'"
    and "selectedAction m' = selectedAction m1" "actions m' = actions m1"
    using Cons.IH [of m1] Cons.prems by auto
  then show ?case
    using ev step keep by simp
qed

lemma action_downs:
  assumes "0 \<le> action_cursor m" "action_cursor m < int (length (actions m))"
    "int (length (actions m)) < 2 ^ 63"
  shows "runProgram actionChoice_Update m (replicate n (Deliver (KeyMsg ''down''))) =
         Awaiting (m\<lparr>action_cursor := (action_cursor m + int n) mod int (length (actions m))\<rparr>)"
  using assms
proof (induction n arbitrary: m)
  case 0
  then show ?case by simp
next
  case (Suc n)
  let ?m' = "m\<lparr>action_cursor := (action_cursor m + 1) mod int (length (actions m))\<rparr>"
  have step: "actionChoice_Update m (KeyMsg ''down'') = Inr (?m', NoCmd)"
    using Suc.prems by (rule action_down)
  have pos: "0 < int (length (actions m))"
    using Suc.prems by linarith
  have "0 \<le> action_cursor ?m'" "action_cursor ?m' < int (length (actions ?m'))"
    "int (length (actions ?m')) < 2 ^ 63"
    using Suc.prems pos by simp_all
  then have "runProgram actionChoice_Update ?m' (replicate n (Deliver (KeyMsg ''down''))) =
        Awaiting (?m'\<lparr>action_cursor := (action_cursor ?m' + int n) mod int (length (actions ?m'))\<rparr>)"
    by (rule Suc.IH)
  moreover have "((action_cursor m + 1) mod int (length (actions m)) + int n)
                   mod int (length (actions m)) =
                 (action_cursor m + int (Suc n)) mod int (length (actions m))"
    by (simp add: mod_simps algebra_simps)
  ultimately show ?case
    using step by simp
qed

lemma action_ups:
  assumes "0 \<le> action_cursor m" "action_cursor m < int (length (actions m))"
    "int (length (actions m)) < 2 ^ 63"
  shows "runProgram actionChoice_Update m (replicate n (Deliver (KeyMsg ''up''))) =
         Awaiting (m\<lparr>action_cursor := (action_cursor m - int n) mod int (length (actions m))\<rparr>)"
  using assms
proof (induction n arbitrary: m)
  case 0
  then show ?case by simp
next
  case (Suc n)
  let ?m' = "m\<lparr>action_cursor := (action_cursor m - 1) mod int (length (actions m))\<rparr>"
  have step: "actionChoice_Update m (KeyMsg ''up'') = Inr (?m', NoCmd)"
    using Suc.prems by (rule action_up)
  have pos: "0 < int (length (actions m))"
    using Suc.prems by linarith
  have "0 \<le> action_cursor ?m'" "action_cursor ?m' < int (length (actions ?m'))"
    "int (length (actions ?m')) < 2 ^ 63"
    using Suc.prems pos by simp_all
  then have "runProgram actionChoice_Update ?m' (replicate n (Deliver (KeyMsg ''up''))) =
        Awaiting (?m'\<lparr>action_cursor := (action_cursor ?m' - int n) mod int (length (actions ?m'))\<rparr>)"
    by (rule Suc.IH)
  moreover have "((action_cursor m - 1) mod int (length (actions m)) - int n)
                   mod int (length (actions m)) =
                 (action_cursor m - int (Suc n)) mod int (length (actions m))"
    by (simp add: mod_simps algebra_simps)
  ultimately show ?case
    using step by simp
qed

subsection \<open>Claims about the menus\<close>

text \<open>
  C7: a freshly created menu is waiting for input (the session is active, nothing returned
  yet), holds the items it was given, has no selection (the empty string), and its cursor
  is \<open>len(items) - 1\<close>; when the list is not empty that is the index of the last item.
  The action menu starts on its second and last entry. The cursor equation holds for the
  empty list too, where it gives \<open>-1\<close>.
\<close>

theorem C7_initial_models:
  "runProgram containerChoice_Update (initialContainerModel cs) [] =
     Awaiting (initialContainerModel cs) \<and>
   containers (initialContainerModel cs) = cs \<and>
   selectedContainer (initialContainerModel cs) = '''' \<and>
   cursor (initialContainerModel cs) = int (length cs) - 1 \<and>
   (cs \<noteq> [] \<longrightarrow> index cs (cursor (initialContainerModel cs)) = Inr (last cs)) \<and>
   runProgram actionChoice_Update (initialActionModel c) [] =
     Awaiting (initialActionModel c) \<and>
   action_selectedContainer (initialActionModel c) = c \<and>
   selectedAction (initialActionModel c) = '''' \<and>
   action_cursor (initialActionModel c) = int (length (actions (initialActionModel c))) - 1 \<and>
   index (actions (initialActionModel c)) (action_cursor (initialActionModel c)) =
     Inr ''Copy container ID''"
  by (simp add: initialContainerModel_def initialActionModel_def index_last) (simp add: index_def)

theorem C7_initial_models_witness:
  "[''a'', ''b'', ''c''] \<noteq> [] \<and>
   cursor (initialContainerModel [''a'', ''b'', ''c'']) = 2 \<and>
   index [''a'', ''b'', ''c''] (cursor (initialContainerModel [''a'', ''b'', ''c''])) = Inr ''c'' \<and>
   selectedContainer (initialContainerModel [''a'', ''b'', ''c'']) = ''''"
  using C7_initial_models [of "[''a'', ''b'', ''c'']" webContainer]
  by auto

text \<open>
  C9: if the cursor satisfies \<open>0 \<le> cursor < len(items)\<close> (so the list is not empty),
  then \<open>Update\<close> on any message, a move, a commit, a cancel or an ignored one, does not
  panic and returns a menu with the same items whose cursor is again within the bounds.
  Hence every menu reached from \<open>initialContainerModel\<close> of a non-empty list keeps the
  cursor within the bounds. A Go slice has fewer than \<open>2 ^ 63\<close> elements.
\<close>

theorem C9_cursor_invariant:
  "(0 \<le> cursor m \<and> cursor m < int (length (containers m)) \<and>
    int (length (containers m)) < 2 ^ 63 \<longrightarrow>
      (\<exists>m' c. containerChoice_Update m e = Inr (m', c) \<and>
         containers m' = containers m \<and>
         0 \<le> cursor m' \<and> cursor m' < int (length (containers m')))) \<and>
   (0 \<le> action_cursor a \<and> action_cursor a < int (length (actions a)) \<and>
    int (length (actions a)) < 2 ^ 63 \<longrightarrow>
      (\<exists>a' c. actionChoice_Update a e = Inr (a', c) \<and>
         actions a' = actions a \<and>
         0 \<le> action_cursor a' \<and> action_cursor a' < int (length (actions a')))) \<and>
   (cs \<noteq> [] \<and> int (length cs) < 2 ^ 63 \<and>
    runProgram containerChoice_Update (initialContainerModel cs) evs = Awaiting m1 \<longrightarrow>
      containers m1 = cs \<and> 0 \<le> cursor m1 \<and> cursor m1 < int (length cs))"
proof (intro conjI impI)
  assume "0 \<le> cursor m \<and> cursor m < int (length (containers m)) \<and>
    int (length (containers m)) < 2 ^ 63"
  then show "\<exists>m' c. containerChoice_Update m e = Inr (m', c) \<and>
         containers m' = containers m \<and>
         0 \<le> cursor m' \<and> cursor m' < int (length (containers m'))"
    by (intro container_step) simp_all
next
  assume "0 \<le> action_cursor a \<and> action_cursor a < int (length (actions a)) \<and>
    int (length (actions a)) < 2 ^ 63"
  then show "\<exists>a' c. actionChoice_Update a e = Inr (a', c) \<and>
         actions a' = actions a \<and>
         0 \<le> action_cursor a' \<and> action_cursor a' < int (length (actions a'))"
    by (intro action_step) simp_all
next
  assume h: "cs \<noteq> [] \<and> int (length cs) < 2 ^ 63 \<and>
    runProgram containerChoice_Update (initialContainerModel cs) evs = Awaiting m1"
  let ?m = "initialContainerModel cs"
  have "0 \<le> cursor ?m" "cursor ?m < int (length (containers ?m))"
    "int (length (containers ?m)) < 2 ^ 63"
    using h by (simp_all add: initialContainerModel_def Suc_leI)
  moreover have "runProgram containerChoice_Update ?m evs = Awaiting m1"
    using h by simp
  ultimately have "containers m1 = containers ?m \<and>
      0 \<le> cursor m1 \<and> cursor m1 < int (length (containers m1))"
    by (rule container_run_range)
  then have r: "containers m1 = cs" "0 \<le> cursor m1" "cursor m1 < int (length cs)"
    by (auto simp add: initialContainerModel_def)
  show "containers m1 = cs" "0 \<le> cursor m1" "cursor m1 < int (length cs)"
    by (fact r)+
qed

theorem C9_cursor_invariant_witness:
  "(\<exists>m' c. containerChoice_Update
       \<lparr>containers = [''a'', ''b'', ''c''], cursor = 2, selectedContainer = ''''\<rparr>
       (KeyMsg ''down'') = Inr (m', c) \<and>
       containers m' = [''a'', ''b'', ''c''] \<and> 0 \<le> cursor m' \<and> cursor m' < 3) \<and>
   (\<exists>a' c. actionChoice_Update
       \<lparr>actions = [''Exit'', ''Copy container ID''], action_cursor = 0, selectedAction = '''',
        action_selectedContainer = webContainer\<rparr>
       (KeyMsg ''down'') = Inr (a', c) \<and>
       actions a' = [''Exit'', ''Copy container ID''] \<and>
       0 \<le> action_cursor a' \<and> action_cursor a' < 2) \<and>
   (0 \<le> cursor (initialContainerModel [''a'', ''b'', ''c'']) \<and>
    cursor (initialContainerModel [''a'', ''b'', ''c'']) < 3)"
proof -
  let ?m = "\<lparr>containers = [''a'', ''b'', ''c''], cursor = 2, selectedContainer = ''''\<rparr>"
  let ?a = "\<lparr>actions = [''Exit'', ''Copy container ID''], action_cursor = 0,
             selectedAction = '''', action_selectedContainer = webContainer\<rparr>"
  note inv = C9_cursor_invariant
    [where m = ?m and a = ?a and e = "KeyMsg ''down''" and cs = "[''a'', ''b'', ''c'']"
       and evs = "[]" and ?m1.0 = "initialContainerModel [''a'', ''b'', ''c'']"]
  have hm: "0 \<le> cursor ?m \<and> cursor ?m < int (length (containers ?m)) \<and>
      int (length (containers ?m)) < 2 ^ 63"
    and ha: "0 \<le> action_cursor ?a \<and> action_cursor ?a < int (length (actions ?a)) \<and>
      int (length (actions ?a)) < 2 ^ 63"
    and hr: "[''a'', ''b'', ''c''] \<noteq> [] \<and> int (length [''a'', ''b'', ''c'']) < 2 ^ 63 \<and>
      runProgram containerChoice_Update (initialContainerModel [''a'', ''b'', ''c'']) [] =
        Awaiting (initialContainerModel [''a'', ''b'', ''c''])"
    by simp_all
  from inv hm have "\<exists>m' c. containerChoice_Update ?m (KeyMsg ''down'') = Inr (m', c) \<and>
         containers m' = containers ?m \<and>
         0 \<le> cursor m' \<and> cursor m' < int (length (containers m'))"
    by blast
  then have 1: "\<exists>m' c. containerChoice_Update ?m (KeyMsg ''down'') = Inr (m', c) \<and>
       containers m' = [''a'', ''b'', ''c''] \<and> 0 \<le> cursor m' \<and> cursor m' < 3"
    by auto
  from inv ha have "\<exists>a' c. actionChoice_Update ?a (KeyMsg ''down'') = Inr (a', c) \<and>
         actions a' = actions ?a \<and>
         0 \<le> action_cursor a' \<and> action_cursor a' < int (length (actions a'))"
    by blast
  then have 2: "\<exists>a' c. actionChoice_Update ?a (KeyMsg ''down'') = Inr (a', c) \<and>
       actions a' = [''Exit'', ''Copy container ID''] \<and>
       0 \<le> action_cursor a' \<and> action_cursor a' < 2"
    by auto
  from inv hr have "0 \<le> cursor (initialContainerModel [''a'', ''b'', ''c'']) \<and>
      cursor (initialContainerModel [''a'', ''b'', ''c'']) < int (length [''a'', ''b'', ''c''])"
    by blast
  then have 3: "0 \<le> cursor (initialContainerModel [''a'', ''b'', ''c'']) \<and>
      cursor (initialContainerModel [''a'', ''b'', ''c'']) < 3"
    by simp
  show ?thesis
    using 1 2 3 by blast
qed

text \<open>
  C5: with a non-empty list and the cursor within the bounds, \<open>len(items)\<close> presses of
  \<open>down\<close> bring the menu back to where it started, and so do \<open>len(items)\<close> presses of
  \<open>up\<close>; this holds for both menus. With the cursor on the last of three items, one
  \<open>down\<close> moves it to index 0.
\<close>

theorem C5_wrap_around:
  "(0 \<le> cursor m \<and> cursor m < int (length (containers m)) \<and>
    int (length (containers m)) < 2 ^ 63 \<longrightarrow>
      runProgram containerChoice_Update m
        (replicate (length (containers m)) (Deliver (KeyMsg ''down''))) = Awaiting m \<and>
      runProgram containerChoice_Update m
        (replicate (length (containers m)) (Deliver (KeyMsg ''up''))) = Awaiting m) \<and>
   (0 \<le> action_cursor a \<and> action_cursor a < int (length (actions a)) \<and>
    int (length (actions a)) < 2 ^ 63 \<longrightarrow>
      runProgram actionChoice_Update a
        (replicate (length (actions a)) (Deliver (KeyMsg ''down''))) = Awaiting a \<and>
      runProgram actionChoice_Update a
        (replicate (length (actions a)) (Deliver (KeyMsg ''up''))) = Awaiting a) \<and>
   (length (containers m) = 3 \<and> cursor m = 2 \<longrightarrow>
      containerChoice_Update m (KeyMsg ''down'') = Inr (m\<lparr>cursor := 0\<rparr>, NoCmd))"
proof (intro conjI impI)
  assume r: "0 \<le> cursor m \<and> cursor m < int (length (containers m)) \<and>
    int (length (containers m)) < 2 ^ 63"
  then have full: "(cursor m + int (length (containers m))) mod int (length (containers m)) =
      cursor m"
    "(cursor m - int (length (containers m))) mod int (length (containers m)) = cursor m"
    by simp_all
  show "runProgram containerChoice_Update m
        (replicate (length (containers m)) (Deliver (KeyMsg ''down''))) = Awaiting m"
    using r container_downs [of m "length (containers m)"] full by simp
  show "runProgram containerChoice_Update m
        (replicate (length (containers m)) (Deliver (KeyMsg ''up''))) = Awaiting m"
    using r container_ups [of m "length (containers m)"] full by simp
next
  assume r: "0 \<le> action_cursor a \<and> action_cursor a < int (length (actions a)) \<and>
    int (length (actions a)) < 2 ^ 63"
  then have full: "(action_cursor a + int (length (actions a))) mod int (length (actions a)) =
      action_cursor a"
    "(action_cursor a - int (length (actions a))) mod int (length (actions a)) =
      action_cursor a"
    by simp_all
  show "runProgram actionChoice_Update a
        (replicate (length (actions a)) (Deliver (KeyMsg ''down''))) = Awaiting a"
    using r action_downs [of a "length (actions a)"] full by simp
  show "runProgram actionChoice_Update a
        (replicate (length (actions a)) (Deliver (KeyMsg ''up''))) = Awaiting a"
    using r action_ups [of a "length (actions a)"] full by simp
next
  assume "length (containers m) = 3 \<and> cursor m = 2"
  then show "containerChoice_Update m (KeyMsg ''down'') = Inr (m\<lparr>cursor := 0\<rparr>, NoCmd)"
    by (simp add: container_down_any wrap64_def)
qed

theorem C5_wrap_around_witness:
  "runProgram containerChoice_Update
     \<lparr>containers = [''a'', ''b'', ''c''], cursor = 2, selectedContainer = ''''\<rparr>
     (replicate 3 (Deliver (KeyMsg ''down''))) =
     Awaiting \<lparr>containers = [''a'', ''b'', ''c''], cursor = 2, selectedContainer = ''''\<rparr> \<and>
   runProgram containerChoice_Update
     \<lparr>containers = [''a'', ''b'', ''c''], cursor = 2, selectedContainer = ''''\<rparr>
     (replicate 3 (Deliver (KeyMsg ''up''))) =
     Awaiting \<lparr>containers = [''a'', ''b'', ''c''], cursor = 2, selectedContainer = ''''\<rparr> \<and>
   runProgram actionChoice_Update
     \<lparr>actions = [''Exit'', ''Copy container ID''], action_cursor = 0, selectedAction = '''',
      action_selectedContainer = webContainer\<rparr>
     (replicate 2 (Deliver (KeyMsg ''down''))) =
     Awaiting \<lparr>actions = [''Exit'', ''Copy container ID''], action_cursor = 0,
      selectedAction = '''', action_selectedContainer = webContainer\<rparr> \<and>
   runProgram actionChoice_Update
     \<lparr>actions = [''Exit'', ''Copy container ID''], action_cursor = 0, selectedAction = '''',
      action_selectedContainer = webContainer\<rparr>
     (replicate 2 (Deliver (KeyMsg ''up''))) =
     Awaiting \<lparr>actions = [''Exit'', ''Copy container ID''], action_cursor = 0,
      selectedAction = '''', action_selectedContainer = webContainer\<rparr> \<and>
   containerChoice_Update
     \<lparr>containers = [''a'', ''b'', ''c''], cursor = 2, selectedContainer = ''''\<rparr>
     (KeyMsg ''down'') =
     Inr (\<lparr>containers = [''a'', ''b'', ''c''], cursor = 0, selectedContainer = ''''\<rparr>, NoCmd)"
proof -
  let ?m = "\<lparr>containers = [''a'', ''b'', ''c''], cursor = 2, selectedContainer = ''''\<rparr>"
  let ?a = "\<lparr>actions = [''Exit'', ''Copy container ID''], action_cursor = 0,
             selectedAction = '''', action_selectedContainer = webContainer\<rparr>"
  have lm: "length (containers ?m) = 3" and la: "length (actions ?a) = 2"
    by simp_all
  have hm: "0 \<le> cursor ?m \<and> cursor ?m < int (length (containers ?m)) \<and>
      int (length (containers ?m)) < 2 ^ 63"
    and ha: "0 \<le> action_cursor ?a \<and> action_cursor ?a < int (length (actions ?a)) \<and>
      int (length (actions ?a)) < 2 ^ 63"
    and hs: "length (containers ?m) = 3 \<and> cursor ?m = 2"
    by simp_all
  have zero: "?m\<lparr>cursor := 0\<rparr> =
      \<lparr>containers = [''a'', ''b'', ''c''], cursor = 0, selectedContainer = ''''\<rparr>"
    by simp
  note law = C5_wrap_around [of ?m ?a]
  from law hm have "runProgram containerChoice_Update ?m
        (replicate (length (containers ?m)) (Deliver (KeyMsg ''down''))) = Awaiting ?m \<and>
      runProgram containerChoice_Update ?m
        (replicate (length (containers ?m)) (Deliver (KeyMsg ''up''))) = Awaiting ?m"
    by blast
  moreover from law ha have "runProgram actionChoice_Update ?a
        (replicate (length (actions ?a)) (Deliver (KeyMsg ''down''))) = Awaiting ?a \<and>
      runProgram actionChoice_Update ?a
        (replicate (length (actions ?a)) (Deliver (KeyMsg ''up''))) = Awaiting ?a"
    by blast
  moreover from law hs have "containerChoice_Update ?m (KeyMsg ''down'') =
      Inr (?m\<lparr>cursor := 0\<rparr>, NoCmd)"
    by blast
  ultimately show ?thesis
    unfolding lm la zero by blast
qed

text \<open>
  C6: with the cursor within the bounds, \<open>enter\<close> does not fail: it records the item at
  the cursor and quits. In a session, whatever events came before, \<open>chooseContainer\<close>
  and \<open>chooseAction\<close> return the item at the position the cursor has when \<open>enter\<close>
  arrives, with a \<open>nil\<close> error.
\<close>

theorem C6_commit_takes_item_at_cursor:
  "(0 \<le> cursor m \<and> cursor m < int (length (containers m)) \<longrightarrow>
      containerChoice_Update m (KeyMsg ''enter'') =
        Inr (m\<lparr>selectedContainer := containers m ! nat (cursor m)\<rparr>, Quit)) \<and>
   (0 \<le> action_cursor a \<and> action_cursor a < int (length (actions a)) \<longrightarrow>
      actionChoice_Update a (KeyMsg ''enter'') =
        Inr (a\<lparr>selectedAction := actions a ! nat (action_cursor a)\<rparr>, Quit)) \<and>
   (cs \<noteq> [] \<and> int (length cs) < 2 ^ 63 \<and>
    runProgram containerChoice_Update (initialContainerModel cs) pre = Awaiting m' \<longrightarrow>
      0 \<le> cursor m' \<and> cursor m' < int (length cs) \<and>
      chooseContainer cs (pre @ Deliver (KeyMsg ''enter'') # rest) =
        Returns (cs ! nat (cursor m'), None)) \<and>
   (runProgram actionChoice_Update (initialActionModel c) pre = Awaiting a' \<longrightarrow>
      0 \<le> action_cursor a' \<and> action_cursor a' < 2 \<and>
      chooseAction c (pre @ Deliver (KeyMsg ''enter'') # rest) =
        Returns ([''Exit'', ''Copy container ID''] ! nat (action_cursor a'), None))"
proof (intro conjI impI)
  assume "0 \<le> cursor m \<and> cursor m < int (length (containers m))"
  then show "containerChoice_Update m (KeyMsg ''enter'') =
        Inr (m\<lparr>selectedContainer := containers m ! nat (cursor m)\<rparr>, Quit)"
    by (simp add: container_enter index_def)
next
  assume "0 \<le> action_cursor a \<and> action_cursor a < int (length (actions a))"
  then show "actionChoice_Update a (KeyMsg ''enter'') =
        Inr (a\<lparr>selectedAction := actions a ! nat (action_cursor a)\<rparr>, Quit)"
    by (simp add: action_enter index_def)
next
  assume h: "cs \<noteq> [] \<and> int (length cs) < 2 ^ 63 \<and>
    runProgram containerChoice_Update (initialContainerModel cs) pre = Awaiting m'"
  let ?m = "initialContainerModel cs"
  have "0 \<le> cursor ?m" "cursor ?m < int (length (containers ?m))"
    "int (length (containers ?m)) < 2 ^ 63"
    using h by (simp_all add: initialContainerModel_def Suc_leI)
  moreover have "runProgram containerChoice_Update ?m pre = Awaiting m'"
    using h by simp
  ultimately have r: "containers m' = containers ?m \<and>
      0 \<le> cursor m' \<and> cursor m' < int (length (containers m'))"
    by (rule container_run_range)
  then have r': "containers m' = cs" "0 \<le> cursor m'" "cursor m' < int (length cs)"
    by (auto simp add: initialContainerModel_def)
  show "0 \<le> cursor m'" "cursor m' < int (length cs)"
    by (fact r')+
  have "runProgram containerChoice_Update ?m (pre @ Deliver (KeyMsg ''enter'') # rest) =
        runProgram containerChoice_Update m' (Deliver (KeyMsg ''enter'') # rest)"
    using h by (simp add: runProgram_append)
  then show "chooseContainer cs (pre @ Deliver (KeyMsg ''enter'') # rest) =
        Returns (cs ! nat (cursor m'), None)"
    using r' by (simp add: chooseContainer_def container_enter index_def)
next
  assume h: "runProgram actionChoice_Update (initialActionModel c) pre = Awaiting a'"
  let ?a = "initialActionModel c"
  have "0 \<le> action_cursor ?a" "action_cursor ?a < int (length (actions ?a))"
    "int (length (actions ?a)) < 2 ^ 63"
    by (simp_all add: initialActionModel_def)
  then have r: "actions a' = actions ?a \<and>
      0 \<le> action_cursor a' \<and> action_cursor a' < int (length (actions a'))"
    using h by (rule action_run_range)
  then have r': "actions a' = [''Exit'', ''Copy container ID'']" "0 \<le> action_cursor a'"
    "action_cursor a' < 2"
    by (auto simp add: initialActionModel_def)
  show "0 \<le> action_cursor a'" "action_cursor a' < 2"
    by (fact r')+
  have "runProgram actionChoice_Update ?a (pre @ Deliver (KeyMsg ''enter'') # rest) =
        runProgram actionChoice_Update a' (Deliver (KeyMsg ''enter'') # rest)"
    using h by (simp add: runProgram_append)
  then show "chooseAction c (pre @ Deliver (KeyMsg ''enter'') # rest) =
        Returns ([''Exit'', ''Copy container ID''] ! nat (action_cursor a'), None)"
    using r' by (simp add: chooseAction_def action_enter index_def)
qed

theorem C6_commit_takes_item_at_cursor_witness:
  "containerChoice_Update
     \<lparr>containers = [''a'', ''b'', ''c''], cursor = 1, selectedContainer = ''''\<rparr>
     (KeyMsg ''enter'') =
     Inr (\<lparr>containers = [''a'', ''b'', ''c''], cursor = 1, selectedContainer = ''b''\<rparr>, Quit) \<and>
   actionChoice_Update (initialActionModel webContainer) (KeyMsg ''enter'') =
     Inr ((initialActionModel webContainer)\<lparr>selectedAction := ''Copy container ID''\<rparr>, Quit) \<and>
   chooseContainer [''a'', ''b'', ''c'']
     [Deliver (KeyMsg ''up''), Deliver (KeyMsg ''up''), Deliver (KeyMsg ''enter'')] =
     Returns (''a'', None) \<and>
   chooseAction webContainer [Deliver (KeyMsg ''down''), Deliver (KeyMsg ''enter'')] =
     Returns (''Exit'', None)"
proof -
  let ?m = "\<lparr>containers = [''a'', ''b'', ''c''], cursor = 1, selectedContainer = ''''\<rparr>"
  let ?m' = "\<lparr>containers = [''a'', ''b'', ''c''], cursor = 0, selectedContainer = ''''\<rparr>"
  let ?a' = "(initialActionModel webContainer)\<lparr>action_cursor := 0\<rparr>"
  note first = C6_commit_takes_item_at_cursor
    [where m = ?m and a = "initialActionModel webContainer" and cs = "[''a'', ''b'', ''c'']"
       and pre = "[Deliver (KeyMsg ''up''), Deliver (KeyMsg ''up'')]" and m' = ?m'
       and rest = "[]"]
  note second = C6_commit_takes_item_at_cursor
    [where c = webContainer and pre = "[Deliver (KeyMsg ''down'')]" and a' = ?a'
       and rest = "[]"]
  have w: "wrap64 0 = 0" "wrap64 1 = 1" "wrap64 2 = 2"
    by (simp_all add: wrap64_def)
  have run: "runProgram containerChoice_Update (initialContainerModel [''a'', ''b'', ''c''])
      [Deliver (KeyMsg ''up''), Deliver (KeyMsg ''up'')] = Awaiting ?m'"
    by (simp add: initialContainerModel_def container_up_any w)
  have runa: "runProgram actionChoice_Update (initialActionModel webContainer)
      [Deliver (KeyMsg ''down'')] = Awaiting ?a'"
    by (simp add: initialActionModel_def action_down_any w)
  show ?thesis
    using first second run runa by (simp add: initialActionModel_def)
qed

text \<open>
  C10: when a session is ended by \<open>q\<close>, \<open>esc\<close> or \<open>ctrl+c\<close>, nothing but moves and
  ignored messages having come before, \<open>chooseContainer\<close> and \<open>chooseAction\<close> return
  the empty string and a \<open>nil\<close> error. That is also what a session returns that commits
  an item which is the empty string, so the caller cannot tell the two apart.
\<close>

theorem C10_cancel_returns_empty:
  "(list_all browsing pre \<and> cancelKey k \<longrightarrow>
      chooseContainer cs (pre @ Deliver (KeyMsg k) # rest) = Returns ('''', None) \<and>
      chooseAction c (pre @ Deliver (KeyMsg k) # rest) = Returns ('''', None)) \<and>
   chooseContainer [''''] [Deliver (KeyMsg ''enter'')] = Returns ('''', None)"
proof (intro conjI impI)
  assume h: "list_all browsing pre \<and> cancelKey k"
  then have pre: "list_all browsing pre" and k: "cancelKey k"
    by simp_all
  obtain m' where run: "runProgram containerChoice_Update (initialContainerModel cs) pre =
      Awaiting m'"
    and sel: "selectedContainer m' = selectedContainer (initialContainerModel cs)"
    using container_run_browsing [OF pre] by blast
  have "runProgram containerChoice_Update (initialContainerModel cs)
          (pre @ Deliver (KeyMsg k) # rest) = Ended m' None"
    using runProgram_append [OF run] k by (simp add: container_quit)
  then show "chooseContainer cs (pre @ Deliver (KeyMsg k) # rest) = Returns ('''', None)"
    using sel by (simp add: chooseContainer_def initialContainerModel_def)
  obtain a' where runa: "runProgram actionChoice_Update (initialActionModel c) pre =
      Awaiting a'"
    and sela: "selectedAction a' = selectedAction (initialActionModel c)"
    using action_run_browsing [OF pre] by blast
  have "runProgram actionChoice_Update (initialActionModel c)
          (pre @ Deliver (KeyMsg k) # rest) = Ended a' None"
    using runProgram_append [OF runa] k by (simp add: action_quit)
  then show "chooseAction c (pre @ Deliver (KeyMsg k) # rest) = Returns ('''', None)"
    using sela by (simp add: chooseAction_def initialActionModel_def)
next
  show "chooseContainer [''''] [Deliver (KeyMsg ''enter'')] = Returns ('''', None)"
    by (simp add: chooseContainer_def initialContainerModel_def container_enter index_def)
qed

theorem C10_cancel_returns_empty_witness:
  "list_all browsing [Deliver OtherMsg, Deliver (KeyMsg ''up''), Deliver (KeyMsg ''x'')] \<and>
   cancelKey ''esc'' \<and>
   chooseContainer [''a'', ''b'', ''c'']
     ([Deliver OtherMsg, Deliver (KeyMsg ''up''), Deliver (KeyMsg ''x'')] @
      Deliver (KeyMsg ''esc'') # [Deliver (KeyMsg ''enter'')]) = Returns ('''', None) \<and>
   chooseAction webContainer
     ([Deliver OtherMsg, Deliver (KeyMsg ''up''), Deliver (KeyMsg ''x'')] @
      Deliver (KeyMsg ''esc'') # [Deliver (KeyMsg ''enter'')]) = Returns ('''', None)"
proof -
  have h: "list_all browsing [Deliver OtherMsg, Deliver (KeyMsg ''up''), Deliver (KeyMsg ''x'')] \<and>
      cancelKey ''esc''"
    by (simp add: cancelKey_def)
  show ?thesis
    using h C10_cancel_returns_empty
      [of "[Deliver OtherMsg, Deliver (KeyMsg ''up''), Deliver (KeyMsg ''x'')]" "''esc''"
          "[''a'', ''b'', ''c'']" "[Deliver (KeyMsg ''enter'')]" webContainer]
    by blast
qed

text \<open>
  C4, as the specification states it: on an empty list \<open>up\<close> and \<open>down\<close> change
  nothing. The menu of an empty list starts with the cursor at \<open>-1\<close>, and \<open>down\<close>
  moves it to 0.
\<close>

theorem C4_counterexample:
  "cursor (initialContainerModel []) = - 1 \<and>
   containerChoice_Update (initialContainerModel []) (KeyMsg ''down'') =
     Inr (\<lparr>containers = [], cursor = 0, selectedContainer = ''''\<rparr>, NoCmd)"
  by (simp add: container_down_any initialContainerModel_def wrap64_def)

text \<open>
  C4, amended: on an empty list whose cursor is \<open>-1\<close> or 0, the two values it can take
  starting from a fresh menu, \<open>up\<close> and \<open>down\<close> never fail and leave the items and the
  selection as they are; \<open>up\<close> sets the cursor to \<open>-1\<close> and \<open>down\<close> sets it to 0. So
  \<open>up\<close> changes nothing when the cursor is \<open>-1\<close>, and \<open>down\<close> changes nothing when it
  is 0.
\<close>

theorem C4_moves_on_empty:
  "(containers m = [] \<and> (cursor m = - 1 \<or> cursor m = 0) \<longrightarrow>
      containerChoice_Update m (KeyMsg ''up'') = Inr (m\<lparr>cursor := - 1\<rparr>, NoCmd) \<and>
      containerChoice_Update m (KeyMsg ''down'') = Inr (m\<lparr>cursor := 0\<rparr>, NoCmd)) \<and>
   (actions a = [] \<and> (action_cursor a = - 1 \<or> action_cursor a = 0) \<longrightarrow>
      actionChoice_Update a (KeyMsg ''up'') = Inr (a\<lparr>action_cursor := - 1\<rparr>, NoCmd) \<and>
      actionChoice_Update a (KeyMsg ''down'') = Inr (a\<lparr>action_cursor := 0\<rparr>, NoCmd))"
proof -
  have w: "wrap64 (- 2) = - 2" "wrap64 (- 1) = - 1" "wrap64 0 = 0" "wrap64 1 = 1"
    by (simp_all add: wrap64_def)
  have "containerChoice_Update m (KeyMsg ''up'') = Inr (m\<lparr>cursor := - 1\<rparr>, NoCmd) \<and>
      containerChoice_Update m (KeyMsg ''down'') = Inr (m\<lparr>cursor := 0\<rparr>, NoCmd)"
    if "containers m = []" "cursor m = - 1 \<or> cursor m = 0"
    using that(2)
  proof
    assume "cursor m = - 1"
    then show ?thesis
      using that(1) w by (simp add: container_up_any container_down_any)
  next
    assume "cursor m = 0"
    then show ?thesis
      using that(1) w by (simp add: container_up_any container_down_any)
  qed
  moreover
  have "actionChoice_Update a (KeyMsg ''up'') = Inr (a\<lparr>action_cursor := - 1\<rparr>, NoCmd) \<and>
      actionChoice_Update a (KeyMsg ''down'') = Inr (a\<lparr>action_cursor := 0\<rparr>, NoCmd)"
    if "actions a = []" "action_cursor a = - 1 \<or> action_cursor a = 0"
    using that(2)
  proof
    assume "action_cursor a = - 1"
    then show ?thesis
      using that(1) w by (simp add: action_up_any action_down_any)
  next
    assume "action_cursor a = 0"
    then show ?thesis
      using that(1) w by (simp add: action_up_any action_down_any)
  qed
  ultimately show ?thesis
    by blast
qed

theorem C4_moves_on_empty_witness:
  "containerChoice_Update \<lparr>containers = [], cursor = 0, selectedContainer = ''''\<rparr>
     (KeyMsg ''up'') =
     Inr (\<lparr>containers = [], cursor = - 1, selectedContainer = ''''\<rparr>, NoCmd) \<and>
   containerChoice_Update \<lparr>containers = [], cursor = 0, selectedContainer = ''''\<rparr>
     (KeyMsg ''down'') =
     Inr (\<lparr>containers = [], cursor = 0, selectedContainer = ''''\<rparr>, NoCmd) \<and>
   actionChoice_Update \<lparr>actions = [], action_cursor = - 1, selectedAction = '''',
       action_selectedContainer = webContainer\<rparr> (KeyMsg ''up'') =
     Inr (\<lparr>actions = [], action_cursor = - 1, selectedAction = '''',
       action_selectedContainer = webContainer\<rparr>, NoCmd) \<and>
   actionChoice_Update \<lparr>actions = [], action_cursor = - 1, selectedAction = '''',
       action_selectedContainer = webContainer\<rparr> (KeyMsg ''down'') =
     Inr (\<lparr>actions = [], action_cursor = 0, selectedAction = '''',
       action_selectedContainer = webContainer\<rparr>, NoCmd)"
  using C4_moves_on_empty
    [of "\<lparr>containers = [], cursor = 0, selectedContainer = ''''\<rparr>"
        "\<lparr>actions = [], action_cursor = - 1, selectedAction = '''',
          action_selectedContainer = webContainer\<rparr>"]
  by simp

text \<open>
  C2, as the specification states it: \<open>enter\<close> on an empty list fails with an
  \<open>EmptySelection\<close> error. \<open>Update\<close> has no error result and does not look at the length:
  \<open>menu.containers[menu.cursor]\<close> is out of range and the call panics.
\<close>

theorem C2_counterexample:
  "containerChoice_Update (initialContainerModel []) (KeyMsg ''enter'') =
   Inl (IndexOutOfRange (- 1) 0)"
  by (simp add: container_enter initialContainerModel_def index_def)

text \<open>
  C2, amended: on an empty list \<open>enter\<close> does not return. \<open>Update\<close> stops with the
  run-time panic "index out of range" at the cursor, whatever the cursor is and in both
  menus, so no menu comes back and no selection is recorded.
\<close>

theorem C2_commit_on_empty_panics:
  "(containers m = [] \<longrightarrow>
      containerChoice_Update m (KeyMsg ''enter'') = Inl (IndexOutOfRange (cursor m) 0)) \<and>
   (actions a = [] \<longrightarrow>
      actionChoice_Update a (KeyMsg ''enter'') = Inl (IndexOutOfRange (action_cursor a) 0))"
proof (intro conjI impI)
  assume "containers m = []"
  then show "containerChoice_Update m (KeyMsg ''enter'') = Inl (IndexOutOfRange (cursor m) 0)"
    by (simp add: container_enter index_def)
next
  assume "actions a = []"
  then show "actionChoice_Update a (KeyMsg ''enter'') =
             Inl (IndexOutOfRange (action_cursor a) 0)"
    by (simp add: action_enter index_def)
qed

theorem C2_commit_on_empty_panics_witness:
  "containers \<lparr>containers = [], cursor = 0, selectedContainer = ''''\<rparr> = [] \<and>
   containerChoice_Update \<lparr>containers = [], cursor = 0, selectedContainer = ''''\<rparr>
     (KeyMsg ''enter'') = Inl (IndexOutOfRange 0 0) \<and>
   actions \<lparr>actions = [], action_cursor = - 1, selectedAction = '''',
            action_selectedContainer = webContainer\<rparr> = [] \<and>
   actionChoice_Update \<lparr>actions = [], action_cursor = - 1, selectedAction = '''',
            action_selectedContainer = webContainer\<rparr> (KeyMsg ''enter'') =
     Inl (IndexOutOfRange (- 1) 0)"
  using C2_commit_on_empty_panics
    [of "\<lparr>containers = [], cursor = 0, selectedContainer = ''''\<rparr>"
        "\<lparr>actions = [], action_cursor = - 1, selectedAction = '''',
          action_selectedContainer = webContainer\<rparr>"]
  by simp

section \<open>Properties of the action resolver\<close>

text \<open>
  C8, as the specification states it: when the clipboard command fails, the resolver
  returns the error to its caller. \<open>doAction\<close> runs the command once, prints the error
  value and ends the process with status 1; it does not return.
\<close>

theorem C8_counterexample:
  "doAction (\<lambda>text. Some ''exit status 1'') ''Copy container ID'' webContainer =
   ([RunPbcopy ''abc123'', PrintlnErrorWords], Exits 1)"
  by (simp add: doAction_def copyContainerId_def webContainer_def)

text \<open>
  C8, amended: when \<open>pbcopy\<close> fails during the copy action, \<open>copyContainerId\<close>, having
  run the command once, returns the wrapped error to \<open>doAction\<close>, its caller.
  \<open>doAction\<close> then hands the error value to \<open>println\<close> and ends the process with exit
  status 1: the command has run exactly once, with the identifier as input, and nothing
  else has happened. \<open>doAction\<close> never returns an error that is not \<open>nil\<close>, and
  whatever the action and the outcome it runs the command at most once.
\<close>

theorem C8_clipboard_failure_exits:
  "(pbcopy (ID container) = Some err \<longrightarrow>
      copyContainerId pbcopy (ID container) =
        ([RunPbcopy (ID container)], Some (''error copying container ID: '' @ err)) \<and>
      doAction pbcopy ''Copy container ID'' container =
        ([RunPbcopy (ID container), PrintlnErrorWords], Exits 1)) \<and>
   snd (doAction pbcopy action container) \<noteq> Returns (Some e) \<and>
   length (filter (\<lambda>x. x = RunPbcopy (ID container))
             (fst (doAction pbcopy action container))) \<le> 1 \<and>
   set (fst (doAction pbcopy action container)) \<subseteq>
     {RunPbcopy (ID container), Println ''Container ID copied to clipboard'',
      PrintlnErrorWords}"
proof (intro conjI impI)
  assume "pbcopy (ID container) = Some err"
  then show "copyContainerId pbcopy (ID container) =
        ([RunPbcopy (ID container)], Some (''error copying container ID: '' @ err))"
    and "doAction pbcopy ''Copy container ID'' container =
        ([RunPbcopy (ID container), PrintlnErrorWords], Exits 1)"
    by (simp_all add: doAction_def copyContainerId_def Let_def)
next
  show "snd (doAction pbcopy action container) \<noteq> Returns (Some e)"
    by (cases "pbcopy (ID container)") (simp_all add: doAction_def copyContainerId_def)
next
  show "length (filter (\<lambda>x. x = RunPbcopy (ID container))
             (fst (doAction pbcopy action container))) \<le> 1"
    by (cases "pbcopy (ID container)") (simp_all add: doAction_def copyContainerId_def)
next
  show "set (fst (doAction pbcopy action container)) \<subseteq>
     {RunPbcopy (ID container), Println ''Container ID copied to clipboard'',
      PrintlnErrorWords}"
    by (cases "pbcopy (ID container)") (simp_all add: doAction_def copyContainerId_def)
qed

theorem C8_clipboard_failure_exits_witness:
  "(\<lambda>text. if text = ''abc123'' then Some ''exit status 1'' else None) (ID webContainer) =
     Some ''exit status 1'' \<and>
   copyContainerId (\<lambda>text. if text = ''abc123'' then Some ''exit status 1'' else None)
     (ID webContainer) =
     ([RunPbcopy ''abc123''], Some ''error copying container ID: exit status 1'') \<and>
   doAction (\<lambda>text. if text = ''abc123'' then Some ''exit status 1'' else None)
     ''Copy container ID'' webContainer =
     ([RunPbcopy ''abc123'', PrintlnErrorWords], Exits 1)"
proof -
  let ?pbcopy = "\<lambda>text. if text = ''abc123'' then Some ''exit status 1'' else None"
  have h: "?pbcopy (ID webContainer) = Some ''exit status 1''"
    by (simp add: webContainer_def)
  have i: "ID webContainer = ''abc123''"
    by (simp add: webContainer_def)
  from h C8_clipboard_failure_exits [of ?pbcopy webContainer "''exit status 1''"]
  have "copyContainerId ?pbcopy (ID webContainer) =
        ([RunPbcopy (ID webContainer)],
         Some (''error copying container ID: '' @ ''exit status 1'')) \<and>
      doAction ?pbcopy ''Copy container ID'' webContainer =
        ([RunPbcopy (ID webContainer), PrintlnErrorWords], Exits 1)"
    by blast
  then show ?thesis
    using h by (simp add: i)
qed

end
